theory Spec2Isabelle
  imports Main "HOL-Library.Sublist" "HOL-Library.Word"
begin

section \<open>JavaScript values used by the site\<close>

text \<open>
  A JavaScript string is a sequence of 16-bit code units; \<open>length\<close>, \<open>slice\<close>,
  \<open>===\<close> and the regular expressions of the source all work on code units.
  \<open>js\<close> writes an ASCII literal of the source as such a sequence.
\<close>

type_synonym jsstring = "16 word list"

definition js :: "string \<Rightarrow> jsstring" where
  "js s = map (\<lambda>c. of_nat (of_char c)) s"

text \<open>
  The values that the modelled code reads out of the content files. An entry of a
  content object is a string or an array of strings (\<open>content\<close>). Reading a property
  gives a \<open>jsval\<close>: the entry, or \<open>Undefined\<close>, or a value inherited from
  \<open>Object.prototype\<close>, which every object of the content files has as its prototype:
  \<open>Func\<close> is one of its methods, \<open>Proto\<close> is \<open>Object.prototype\<close> itself (what
  \<open>__proto__\<close> reads).
\<close>

datatype content = Text jsstring | Items "jsstring list"

datatype jsval = Undefined | Str jsstring | Arr "jsstring list" | Func | Proto

fun of_content :: "content \<Rightarrow> jsval" where
  "of_content (Text s) = Str s"
| "of_content (Items xs) = Arr xs"

text \<open>
  Truthiness, as \<open>!x\<close>, \<open>x ? a : b\<close> and \<open>x || y\<close> test it: every function and every
  object is truthy, a string is truthy unless it is empty.
\<close>

fun truthy :: "jsval \<Rightarrow> bool" where
  "truthy Undefined = False"
| "truthy (Str s) = (s \<noteq> [])"
| "truthy (Arr xs) = True"
| "truthy Func = True"
| "truthy Proto = True"

text \<open>\<open>a || b\<close>\<close>

definition js_or :: "jsval \<Rightarrow> jsval \<Rightarrow> jsval" where
  "js_or a b = (if truthy a then a else b)"

text \<open>The property names of \<open>Object.prototype\<close>.\<close>

definition object_prototype_keys :: "jsstring list" where
  "object_prototype_keys =
     map js [''constructor'', ''hasOwnProperty'', ''isPrototypeOf'', ''propertyIsEnumerable'',
             ''toLocaleString'', ''toString'', ''valueOf'', ''__defineGetter__'',
             ''__defineSetter__'', ''__lookupGetter__'', ''__lookupSetter__'', ''__proto__'']"

text \<open>What a property name reads when the object has no own property of that name.\<close>

definition inherited :: "jsstring \<Rightarrow> jsval" where
  "inherited key =
     (if key = js ''__proto__'' then Proto
      else if key \<in> set object_prototype_keys then Func
      else Undefined)"

text \<open>
  \<open>obj[key]\<close> on an object of the content files, given by its own entries: an own
  entry first, then the prototype.
\<close>

definition index :: "(jsstring \<rightharpoonup> content) \<Rightarrow> jsstring \<Rightarrow> jsval" where
  "index obj key = (case obj key of Some c \<Rightarrow> of_content c | None \<Rightarrow> inherited key)"

text \<open>\<open>Array.prototype.includes\<close>: a left-to-right scan for an equal element.\<close>

fun array_includes :: "'a list \<Rightarrow> 'a \<Rightarrow> bool" where
  "array_includes [] x = False"
| "array_includes (y # ys) x = (if y = x then True else array_includes ys x)"

text \<open>
  What the modelled code throws. \<open>InvalidChild\<close> is the error with which React rejects
  a value that cannot be rendered as a child; \<open>NotFound\<close> is what \<open>notFound()\<close> throws.
\<close>

datatype js_error = TypeError | URIError | ModuleNotFound | NotFound | InvalidChild

section \<open>Locale resolution (the request configuration, \<open>getRequestConfig\<close>)\<close>

text \<open>\<open>const locales = ["es"];\<close>\<close>

definition locales :: "jsstring list" where
  "locales = [js ''es'']"

text \<open>
  Lines 9 to 14 of the callback: \<open>requestLocale\<close> resolves to a string or to
  \<open>undefined\<close> (\<open>None\<close>); \<open>!locale\<close> holds for \<open>undefined\<close> and for the empty string.
\<close>

definition resolveLocale :: "jsstring option \<Rightarrow> jsstring" where
  "resolveLocale requestLocale =
     (case requestLocale of
        None \<Rightarrow> js ''es''
      | Some locale \<Rightarrow>
          if locale = [] \<or> \<not> array_includes locales locale then js ''es'' else locale)"

record 'm request_config =
  cfg_locale :: jsstring
  cfg_messages :: 'm

text \<open>
  The whole callback. The message bundles \<open>messages/<locale>.json\<close> are not part of the
  sources, so the table of bundles is a parameter: \<open>bundles l = None\<close> when there is
  no file for \<open>l\<close>, and the dynamic \<open>import\<close> then rejects.
\<close>

definition getRequestConfig ::
  "(jsstring \<rightharpoonup> 'm) \<Rightarrow> jsstring option \<Rightarrow> js_error + 'm request_config" where
  "getRequestConfig bundles requestLocale =
     (let l = resolveLocale requestLocale
      in case bundles l of
           None \<Rightarrow> Inl ModuleNotFound
         | Some m \<Rightarrow> Inr \<lparr>cfg_locale = l, cfg_messages = m\<rparr>)"

section \<open>Case studies (\<open>content-extraction/projects.json\<close>)\<close>

text \<open>
  The fields of a project entry that the modelled code reads. \<open>title\<close>, \<open>tagline\<close>
  and \<open>challenge\<close> are objects keyed by locale code. The file itself is not part of the
  sources: the list of projects is a parameter of every function below.
\<close>

record project =
  slug :: jsstring
  featured :: bool
  category :: "jsstring list"
  title :: "jsstring \<rightharpoonup> content"
  tagline :: "jsstring \<rightharpoonup> content"
  challenge :: "jsstring \<rightharpoonup> content"

subsection \<open>Category filter (\<open>ProjectsSection\<close>)\<close>

text \<open>
  \<^verbatim>\<open>const filtered = filter === "all"
     ? projects.filter((p) => p.featured)
     : projects.filter((p) => p.featured && p.category.includes(filter));\<close>
\<close>

definition filtered :: "jsstring \<Rightarrow> project list \<Rightarrow> project list" where
  "filtered flt projects =
     (if flt = js ''all''
      then filter (\<lambda>p. featured p) projects
      else filter (\<lambda>p. featured p \<and> array_includes (category p) flt) projects)"

subsection \<open>Reading a localized field (\<open>projects/[slug]/page.tsx\<close>)\<close>

text \<open>
  The page reads locale-varying fields in two ways. Lines 58 to 60 index directly,
  \<^verbatim>\<open>project.title[locale as Locale]\<close>, which is \<open>index\<close>; the cast checks nothing.
  The strategy and results tabs read \<^verbatim>\<open>field[locale as Locale] || field.en\<close>:
\<close>

definition read_or_en :: "(jsstring \<rightharpoonup> content) \<Rightarrow> jsstring \<Rightarrow> jsval" where
  "read_or_en field loc = js_or (index field loc) (index field (js ''en''))"




subsection \<open>Project detail page (\<open>ProjectPage\<close>)\<close>





section \<open>Site content (\<open>content-extraction/site-content.json\<close>)\<close>

text \<open>
  The top-level object has one entry per locale, the content bundle, next to entries
  such as \<open>site\<close> and \<open>team\<close>. Every entry is an object and therefore truthy. The file
  is not part of the sources, so the object is a parameter, given by its own entries;
  of an entry the model keeps its \<open>meta\<close> property (\<open>None\<close> when the entry has none).

  \<open>generateMetadata\<close> (the locale layout) receives the raw route parameter:
  \<^verbatim>\<open>const localeData = siteContent[locale as "es"] || siteContent.es;
  const meta = localeData.meta;\<close>
  and then builds the metadata from \<open>meta.title\<close>, \<open>meta.description\<close> and
  \<open>meta.keywords\<close>. A property name of \<open>Object.prototype\<close> reads an inherited function
  or object: it is truthy, so there is no fallback, and it has no \<open>meta\<close>. Reading
  \<open>meta\<close> of \<open>undefined\<close>, or \<open>title\<close> of an undefined \<open>meta\<close>, raises a \<open>TypeError\<close>.
\<close>

definition generateMetadata :: "(jsstring \<rightharpoonup> 'm option) \<Rightarrow> jsstring \<Rightarrow> js_error + 'm" where
  "generateMetadata siteContent loc =
     (let localeData =
            (case siteContent loc of
               Some entry \<Rightarrow> Some entry
             | None \<Rightarrow>
                 if loc \<in> set object_prototype_keys then Some None
                 else siteContent (js ''es''))
      in case localeData of
           None \<Rightarrow> Inl TypeError
         | Some None \<Rightarrow> Inl TypeError
         | Some (Some meta) \<Rightarrow> Inr meta)"

section \<open>Typed-text cycler (\<open>AnimatedText\<close>)\<close>

text \<open>
  The component keeps three state variables and re-runs its effect whenever one of them
  changes; each run of the effect sets one timer, whose callback is \<open>tick\<close> below.
\<close>

record cycler =
  currentIndex :: nat
  currentText :: jsstring
  isDeleting :: bool

record props =
  typingSpeed :: nat
  deletingSpeed :: nat
  pauseTime :: nat

text \<open>The default values of the optional properties.\<close>

definition default_props :: props where
  "default_props = \<lparr>typingSpeed = 100, deletingSpeed = 50, pauseTime = 2000\<rparr>"

text \<open>\<open>useState(0)\<close>, \<open>useState('')\<close>, \<open>useState(false)\<close>\<close>

definition initial :: cycler where
  "initial = \<lparr>currentIndex = 0, currentText = [], isDeleting = False\<rparr>"

text \<open>\<open>texts[currentIndex]\<close>: \<open>undefined\<close> (\<open>None\<close>) when the index selects no element.\<close>

definition targetText :: "jsstring list \<Rightarrow> nat \<Rightarrow> jsstring option" where
  "targetText texts i = (if i < length texts then Some (texts ! i) else None)"

text \<open>
  The timer callback (lines 472 to 490). \<open>targetText.length\<close> raises a \<open>TypeError\<close>
  when the target is \<open>undefined\<close>; only the typing branch evaluates it.
  \<open>targetText.slice(0, n + 1)\<close> is \<open>take (n + 1)\<close> and \<open>currentText.slice(0, -1)\<close> is
  \<open>butlast\<close>. In the branch that has finished typing the callback only starts a second
  timer, which sets \<open>isDeleting\<close> after \<open>pauseTime\<close>; no state changes in between, so
  the step to \<open>isDeleting = true\<close> is modelled as the result of this tick.

  For an empty sequence JavaScript computes \<open>(prev + 1) % 0 = NaN\<close>, an index that
  selects no element; the model's \<open>(i + 1) mod 0 = i + 1\<close> selects no element of the
  empty sequence either.
\<close>

definition tick :: "jsstring list \<Rightarrow> cycler \<Rightarrow> js_error + cycler" where
  "tick texts s =
     (if \<not> isDeleting s then
        (case targetText texts (currentIndex s) of
           None \<Rightarrow> Inl TypeError
         | Some t \<Rightarrow>
             if length (currentText s) < length t
             then Inr (s\<lparr>currentText := take (length (currentText s) + 1) t\<rparr>)
             else Inr (s\<lparr>isDeleting := True\<rparr>))
      else if length (currentText s) > 0
        then Inr (s\<lparr>currentText := butlast (currentText s)\<rparr>)
        else Inr (s\<lparr>isDeleting := False,
                    currentIndex := (currentIndex s + 1) mod length texts\<rparr>))"

text \<open>
  The time in milliseconds from the start of the effect to the state change of its
  tick: the timer runs \<open>isDeleting ? deletingSpeed : typingSpeed\<close>, and the branch that
  has finished typing waits \<open>pauseTime\<close> more.
\<close>

definition tick_delay :: "props \<Rightarrow> jsstring list \<Rightarrow> cycler \<Rightarrow> nat" where
  "tick_delay p texts s =
     (if isDeleting s then deletingSpeed p
      else (case targetText texts (currentIndex s) of
              None \<Rightarrow> typingSpeed p
            | Some t \<Rightarrow>
                if length (currentText s) < length t then typingSpeed p
                else typingSpeed p + pauseTime p))"

text \<open>
  \<open>run n\<close>: the states after each of the next \<open>n\<close> ticks; an error of a tick ends the
  run. \<open>elapsed\<close>: the time those ticks take.
\<close>

fun run :: "nat \<Rightarrow> jsstring list \<Rightarrow> cycler \<Rightarrow> js_error + cycler list" where
  "run 0 texts s = Inr []"
| "run (Suc n) texts s =
     (case tick texts s of
        Inl e \<Rightarrow> Inl e
      | Inr s' \<Rightarrow> (case run n texts s' of Inl e \<Rightarrow> Inl e | Inr ss \<Rightarrow> Inr (s' # ss)))"

fun elapsed :: "props \<Rightarrow> nat \<Rightarrow> jsstring list \<Rightarrow> cycler \<Rightarrow> nat" where
  "elapsed p 0 texts s = 0"
| "elapsed p (Suc n) texts s =
     (case tick texts s of
        Inl e \<Rightarrow> tick_delay p texts s
      | Inr s' \<Rightarrow> tick_delay p texts s + elapsed p n texts s')"

text \<open>
  The substrings the component shows: the text of each state that differs from the
  text shown before it.
\<close>

fun emitted :: "jsstring \<Rightarrow> cycler list \<Rightarrow> jsstring list" where
  "emitted shown [] = []"
| "emitted shown (s # ss) =
     (if currentText s = shown then emitted shown ss
      else currentText s # emitted (currentText s) ss)"

text \<open>The invariant of the cycler's state.\<close>

definition cycler_inv :: "jsstring list \<Rightarrow> cycler \<Rightarrow> bool" where
  "cycler_inv texts s \<longleftrightarrow>
     currentIndex s < length texts \<and> prefix (currentText s) (texts ! currentIndex s)"

section \<open>WhatsApp link (\<open>lib/utils.ts\<close>)\<close>

text \<open>
  \<^verbatim>\<open>phone.replace(/\D/g, '')\<close>: without the \<open>u\<close> flag \<open>\D\<close> matches every code unit
  that is not one of the ASCII digits, and each match is replaced by the empty string.
\<close>

definition is_digit :: "16 word \<Rightarrow> bool" where
  "is_digit u \<longleftrightarrow> 0x30 \<le> u \<and> u \<le> 0x39"

definition formatWhatsAppNumber :: "jsstring \<Rightarrow> jsstring" where
  "formatWhatsAppNumber phone = filter is_digit phone"

subsection \<open>\<open>encodeURIComponent\<close>\<close>

text \<open>
  The built-in function, as ECMAScript defines it: a code unit of the unreserved set
  (letters, digits and \<open>- _ . ! ~ * ' ( )\<close>) is copied; any other code point is written
  as its UTF-8 octets, each as \<open>%\<close> and two upper-case hexadecimal digits; a surrogate
  code unit that is not part of a pair raises a \<open>URIError\<close>.
\<close>

definition unreserved :: "16 word \<Rightarrow> bool" where
  "unreserved u \<longleftrightarrow>
     (0x41 \<le> u \<and> u \<le> 0x5A) \<or> (0x61 \<le> u \<and> u \<le> 0x7A) \<or> (0x30 \<le> u \<and> u \<le> 0x39)
     \<or> u \<in> {0x2D, 0x5F, 0x2E, 0x21, 0x7E, 0x2A, 0x27, 0x28, 0x29}"

definition lead_surrogate :: "16 word \<Rightarrow> bool" where
  "lead_surrogate u \<longleftrightarrow> 0xD800 \<le> u \<and> u \<le> 0xDBFF"

definition trail_surrogate :: "16 word \<Rightarrow> bool" where
  "trail_surrogate u \<longleftrightarrow> 0xDC00 \<le> u \<and> u \<le> 0xDFFF"

definition pair_code_point :: "16 word \<Rightarrow> 16 word \<Rightarrow> nat" where
  "pair_code_point hi lo = (unat hi - 0xD800) * 0x400 + (unat lo - 0xDC00) + 0x10000"

definition utf8 :: "nat \<Rightarrow> nat list" where
  "utf8 cp =
     (if cp < 0x80 then [cp]
      else if cp < 0x800 then [0xC0 + cp div 0x40, 0x80 + cp mod 0x40]
      else if cp < 0x10000
        then [0xE0 + cp div 0x1000, 0x80 + cp div 0x40 mod 0x40, 0x80 + cp mod 0x40]
      else [0xF0 + cp div 0x40000, 0x80 + cp div 0x1000 mod 0x40,
            0x80 + cp div 0x40 mod 0x40, 0x80 + cp mod 0x40])"

definition hex_digit :: "nat \<Rightarrow> 16 word" where
  "hex_digit n = js ''0123456789ABCDEF'' ! n"

definition percent :: "nat \<Rightarrow> jsstring" where
  "percent octet = [0x25, hex_digit (octet div 16), hex_digit (octet mod 16)]"

definition escape :: "nat \<Rightarrow> jsstring" where
  "escape cp = concat (map percent (utf8 cp))"

fun encodeURIComponent :: "jsstring \<Rightarrow> js_error + jsstring" where
  "encodeURIComponent [] = Inr []"
| "encodeURIComponent (c # cs) =
     (if unreserved c then
        (case encodeURIComponent cs of Inl e \<Rightarrow> Inl e | Inr r \<Rightarrow> Inr (c # r))
      else if lead_surrogate c then
        (case cs of
           [] \<Rightarrow> Inl URIError
         | d # ds \<Rightarrow>
             if trail_surrogate d then
               (case encodeURIComponent ds of
                  Inl e \<Rightarrow> Inl e
                | Inr r \<Rightarrow> Inr (escape (pair_code_point c d) @ r))
             else Inl URIError)
      else if trail_surrogate c then Inl URIError
      else
        (case encodeURIComponent cs of
           Inl e \<Rightarrow> Inl e
         | Inr r \<Rightarrow> Inr (escape (unat c) @ r)))"

subsection \<open>\<open>createWhatsAppURL\<close>\<close>

text \<open>
  \<^verbatim>\<open>const formattedPhone = formatWhatsAppNumber(phone);
  const encodedMessage = message ? encodeURIComponent(message) : '';
  return `https://wa.me/${formattedPhone}${encodedMessage ? `?text=${encodedMessage}` : ''}`;\<close>
  The optional \<open>message\<close> is \<open>None\<close> when the argument is left out; it is falsy when
  left out and when empty.
\<close>

definition createWhatsAppURL :: "jsstring \<Rightarrow> jsstring option \<Rightarrow> js_error + jsstring" where
  "createWhatsAppURL phone message =
     (let formattedPhone = formatWhatsAppNumber phone;
          encodedMessage =
            (case message of
               None \<Rightarrow> Inr []
             | Some m \<Rightarrow> if m \<noteq> [] then encodeURIComponent m else Inr [])
      in case encodedMessage of
           Inl e \<Rightarrow> Inl e
         | Inr enc \<Rightarrow>
             Inr (js ''https://wa.me/'' @ formattedPhone
                  @ (if enc \<noteq> [] then js ''?text='' @ enc else [])))"

section \<open>Sample data\<close>

definition demo_project :: "string \<Rightarrow> bool \<Rightarrow> string list \<Rightarrow> project" where
  "demo_project s f cs =
     \<lparr>slug = js s, featured = f, category = map js cs,
      title = [js ''en'' \<mapsto> Text (js s)], tagline = Map.empty, challenge = Map.empty\<rparr>"

definition demo_projects :: "project list" where
  "demo_projects =
     [demo_project ''villa'' True [''vacation-rentals'', ''branding''],
      demo_project ''ads'' False [''paid-ads''],
      demo_project ''casa'' True [''vacation-rentals'']]"






text \<open>The ten states of one cycle through the sequence \<open>["A", "BC"]\<close>.\<close>

definition ab_cycle :: "cycler list" where
  "ab_cycle =
     [\<lparr>currentIndex = 0, currentText = js ''A'', isDeleting = False\<rparr>,
      \<lparr>currentIndex = 0, currentText = js ''A'', isDeleting = True\<rparr>,
      \<lparr>currentIndex = 0, currentText = js '''', isDeleting = True\<rparr>,
      \<lparr>currentIndex = 1, currentText = js '''', isDeleting = False\<rparr>,
      \<lparr>currentIndex = 1, currentText = js ''B'', isDeleting = False\<rparr>,
      \<lparr>currentIndex = 1, currentText = js ''BC'', isDeleting = False\<rparr>,
      \<lparr>currentIndex = 1, currentText = js ''BC'', isDeleting = True\<rparr>,
      \<lparr>currentIndex = 1, currentText = js ''B'', isDeleting = True\<rparr>,
      \<lparr>currentIndex = 1, currentText = js '''', isDeleting = True\<rparr>,
      \<lparr>currentIndex = 0, currentText = js '''', isDeleting = False\<rparr>]"

definition zero_props :: props where
  "zero_props = \<lparr>typingSpeed = 0, deletingSpeed = 0, pauseTime = 0\<rparr>"

section \<open>Properties\<close>

subsection \<open>Strings and arrays\<close>

lemma array_includes_set: "array_includes xs x \<longleftrightarrow> x \<in> set xs"
  by (induction xs) auto

lemma of_char_lt: "(of_char c :: nat) < 256"
proof -
  have "(of_char c :: nat) mod 256 < 256" by (rule mod_less_divisor) simp
  then show ?thesis by (simp only: of_char_mod_256)
qed

lemma js_eq_iff: "js a = js b \<longleftrightarrow> a = b"
proof -
  have "inj (\<lambda>c::char. (of_nat (of_char c) :: 16 word))"
  proof (rule injI)
    fix x y :: char
    assume eq: "(of_nat (of_char x) :: 16 word) = of_nat (of_char y)"
    have "(of_char x :: nat) < 2 ^ 16" and "(of_char y :: nat) < 2 ^ 16"
      by (rule less_trans [OF of_char_lt], simp)+
    then have "(of_char x :: nat) = of_char y"
      using eq by (simp add: word_of_nat_eq_iff take_bit_nat_eq_self)
    then show "x = y" by simp
  qed
  then show ?thesis
    unfolding js_def by (simp add: inj_map_eq_map)
qed


subsection \<open>Locale resolution\<close>

lemma resolveLocale_set:
  "resolveLocale l =
     (case l of
        None \<Rightarrow> js ''es''
      | Some x \<Rightarrow> if x = [] \<or> x \<notin> set locales then js ''es'' else x)"
  by (simp add: resolveLocale_def array_includes_set split: option.splits)

lemma resolveLocale_default:
  "l = None \<or> l = Some [] \<or> (\<exists>x. l = Some x \<and> x \<notin> set locales)
     \<longrightarrow> resolveLocale l = js ''es''"
  by (auto simp: resolveLocale_set)

lemma resolveLocale_member:
  "\<forall>x. l = Some x \<and> x \<in> set locales \<longrightarrow> resolveLocale l = x"
  by (auto simp: resolveLocale_set locales_def)

lemma resolveLocale_supported: "resolveLocale l \<in> set locales"
  by (auto simp: resolveLocale_set locales_def split: option.splits)

lemma getRequestConfig_returns:
  assumes "bundles (js ''es'') = Some m"
  shows "getRequestConfig bundles l = Inr \<lparr>cfg_locale = resolveLocale l, cfg_messages = m\<rparr>"
proof -
  have "resolveLocale l = js ''es''"
    using resolveLocale_supported [of l] by (simp add: locales_def)
  then show ?thesis using assms by (simp add: getRequestConfig_def)
qed

text \<open>
  C1. The locale resolver is total: an absent, empty or unsupported locale resolves to
  the default locale \<open>es\<close>, a supported locale resolves to itself, the result is always
  a supported locale, and the request configuration is returned (no error) as soon as
  the message bundle of the default locale exists.
\<close>

theorem resolveLocale_total:
  "(l = None \<or> l = Some [] \<or> (\<exists>x. l = Some x \<and> x \<notin> set locales)
      \<longrightarrow> resolveLocale l = js ''es'')
   \<and> (\<forall>x. l = Some x \<and> x \<in> set locales \<longrightarrow> resolveLocale l = x)
   \<and> resolveLocale l \<in> set locales
   \<and> (bundles (js ''es'') = Some m \<longrightarrow>
        getRequestConfig bundles l = Inr \<lparr>cfg_locale = resolveLocale l, cfg_messages = m\<rparr>)"
  using resolveLocale_default [of l] resolveLocale_member [of l] resolveLocale_supported [of l]
    getRequestConfig_returns [of bundles m l] by blast

theorem resolveLocale_total_witness:
  "resolveLocale None = js ''es''
   \<and> resolveLocale (Some []) = js ''es''
   \<and> js ''fr'' \<notin> set locales \<and> resolveLocale (Some (js ''fr'')) = js ''es''
   \<and> js ''es'' \<in> set locales \<and> resolveLocale (Some (js ''es'')) = js ''es''
   \<and> getRequestConfig [js ''es'' \<mapsto> (1::nat)] (Some (js ''fr''))
       = Inr \<lparr>cfg_locale = js ''es'', cfg_messages = 1\<rparr>"
proof -
  have fr: "js ''fr'' \<notin> set locales" and es: "js ''es'' \<in> set locales"
    by (simp_all add: locales_def js_eq_iff)
  have b: "[js ''es'' \<mapsto> (1::nat)] (js ''es'') = Some 1" by simp
  show ?thesis
    using resolveLocale_total [of None "[js ''es'' \<mapsto> (1::nat)]" 1]
      resolveLocale_total [of "Some []" "[js ''es'' \<mapsto> (1::nat)]" 1]
      resolveLocale_total [of "Some (js ''fr'')" "[js ''es'' \<mapsto> (1::nat)]" 1]
      resolveLocale_total [of "Some (js ''es'')" "[js ''es'' \<mapsto> (1::nat)]" 1]
      fr es b
    by auto
qed

subsection \<open>Category filter and project lookup\<close>

lemma filtered_all: "filtered (js ''all'') ps = filter featured ps"
  by (simp add: filtered_def)

lemma filtered_other:
  "flt \<noteq> js ''all'' \<Longrightarrow> filtered flt ps = filter (\<lambda>p. featured p \<and> flt \<in> set (category p)) ps"
  by (simp add: filtered_def array_includes_set)

lemma filtered_subseq: "subseq (filtered flt ps) ps"
  by (simp add: filtered_def)

lemma filtered_empty_iff:
  "filtered flt ps = [] \<longleftrightarrow>
     (\<forall>p\<in>set ps. \<not> (featured p \<and> (flt = js ''all'' \<or> flt \<in> set (category p))))"
  by (auto simp: filtered_def array_includes_set filter_empty_conv)

lemma filtered_idem: "filtered flt (filtered flt ps) = filtered flt ps"
  by (simp add: filtered_def)

text \<open>
  C3. Filtering by \<open>all\<close> gives exactly the featured entries; filtering by another
  category gives exactly the featured entries whose category tags contain it; in both
  cases the result is a subsequence of the list (source order kept), and it is empty,
  not an error, exactly when no entry matches.
\<close>

theorem filtered_subsequence:
  "(flt = js ''all'' \<longrightarrow> filtered flt ps = filter featured ps)
   \<and> (flt \<noteq> js ''all'' \<longrightarrow>
        filtered flt ps = filter (\<lambda>p. featured p \<and> flt \<in> set (category p)) ps)
   \<and> subseq (filtered flt ps) ps
   \<and> (filtered flt ps = [] \<longleftrightarrow>
        (\<forall>p\<in>set ps. \<not> (featured p \<and> (flt = js ''all'' \<or> flt \<in> set (category p)))))"
  using filtered_all [of ps] filtered_other [of flt ps] filtered_subseq [of flt ps]
    filtered_empty_iff [of flt ps]
  by blast

lemma demo_slugs:
  "map slug demo_projects = [js ''villa'', js ''ads'', js ''casa'']"
  by (simp add: demo_projects_def demo_project_def)

theorem filtered_subsequence_witness:
  "filtered (js ''all'') demo_projects
     = [demo_project ''villa'' True [''vacation-rentals'', ''branding''],
        demo_project ''casa'' True [''vacation-rentals'']]
   \<and> js ''branding'' \<noteq> js ''all''
   \<and> filtered (js ''branding'') demo_projects
     = [demo_project ''villa'' True [''vacation-rentals'', ''branding'']]
   \<and> js ''social-media'' \<noteq> js ''all''
   \<and> filtered (js ''social-media'') demo_projects = []"
proof -
  have a: "filter featured demo_projects
     = [demo_project ''villa'' True [''vacation-rentals'', ''branding''],
        demo_project ''casa'' True [''vacation-rentals'']]"
    by (simp add: demo_projects_def demo_project_def)
  have b: "filter (\<lambda>p. featured p \<and> js ''branding'' \<in> set (category p)) demo_projects
     = [demo_project ''villa'' True [''vacation-rentals'', ''branding'']]"
    by (simp add: demo_projects_def demo_project_def js_eq_iff)
  have c: "\<forall>p\<in>set demo_projects.
      \<not> (featured p \<and> (js ''social-media'' = js ''all'' \<or> js ''social-media'' \<in> set (category p)))"
    by (simp add: demo_projects_def demo_project_def js_eq_iff)
  have n: "js ''branding'' \<noteq> js ''all''" "js ''social-media'' \<noteq> js ''all''"
    by (simp_all add: js_eq_iff)
  show ?thesis
    using filtered_subsequence [of "js ''all''" demo_projects]
      filtered_subsequence [of "js ''branding''" demo_projects]
      filtered_subsequence [of "js ''social-media''" demo_projects]
      a b c n
    by simp
qed

text \<open>
  C9. Applying the \<open>all\<close> filter to its own result changes nothing; the same holds for
  every selected category.
\<close>

theorem filtered_all_idempotent:
  "filtered (js ''all'') (filtered (js ''all'') ps) = filtered (js ''all'') ps
   \<and> filtered flt (filtered flt ps) = filtered flt ps"
  using filtered_idem by blast

subsection \<open>Project detail page\<close>



lemma index_own: "obj key = Some c \<Longrightarrow> index obj key = of_content c"
  by (simp add: index_def)













subsection \<open>Localized fields\<close>






lemma read_or_en_inherited:
  "field loc = None \<Longrightarrow> loc \<in> set object_prototype_keys \<Longrightarrow>
     read_or_en field loc = inherited loc \<and> truthy (inherited loc)"
  by (simp add: read_or_en_def js_or_def index_def inherited_def)





subsection \<open>Site content\<close>

lemma generateMetadata_absent:
  assumes "siteContent loc = None" "loc \<notin> set object_prototype_keys"
    "siteContent (js ''es'') = Some (Some m)"
  shows "generateMetadata siteContent loc = Inr m"
  using assms by (simp add: generateMetadata_def)

lemma generateMetadata_es:
  assumes "siteContent (js ''es'') = Some (Some m)"
  shows "generateMetadata siteContent (js ''es'') = Inr m"
  using assms by (simp add: generateMetadata_def)

lemma generateMetadata_inherited:
  assumes "siteContent loc = None" "loc \<in> set object_prototype_keys"
  shows "generateMetadata siteContent loc = Inl TypeError"
  using assms by (simp add: generateMetadata_def)

lemma fr_not_inherited: "js ''fr'' \<notin> set object_prototype_keys"
  by (simp add: object_prototype_keys_def js_eq_iff)

lemma constructor_inherited: "js ''constructor'' \<in> set object_prototype_keys"
  by (simp add: object_prototype_keys_def)

lemma generateMetadata_fr: "generateMetadata [js ''es'' \<mapsto> Some m] (js ''fr'') = Inr m"
  by (rule generateMetadata_absent) (simp_all add: js_eq_iff fr_not_inherited)

lemma generateMetadata_constructor:
  "generateMetadata [js ''es'' \<mapsto> Some m] (js ''constructor'') = Inl TypeError"
  by (rule generateMetadata_inherited) (simp_all add: js_eq_iff constructor_inherited)

text \<open>
  C7 (the code misses a case). With only the \<open>es\<close> bundle in the site content,
  \<open>generateMetadata\<close> returns the \<open>es\<close> metadata for \<open>es\<close> and, by its fallback, for
  \<open>fr\<close>; for the route locale \<open>constructor\<close>, a key that the site content does not
  have either, it reads the inherited function instead of falling back and raises a
  \<open>TypeError\<close>.
\<close>

theorem generateMetadata_inherited_key:
  "generateMetadata [js ''es'' \<mapsto> Some m] (js ''es'') = Inr m
   \<and> generateMetadata [js ''es'' \<mapsto> Some m] (js ''fr'') = Inr m
   \<and> [js ''es'' \<mapsto> Some m] (js ''constructor'') = None
   \<and> generateMetadata [js ''es'' \<mapsto> Some m] (js ''constructor'') = Inl TypeError"
proof -
  have "generateMetadata [js ''es'' \<mapsto> Some m] (js ''es'') = Inr m"
    by (rule generateMetadata_es) simp
  moreover have "[js ''es'' \<mapsto> Some m] (js ''constructor'') = None"
    by (simp add: js_eq_iff)
  ultimately show ?thesis
    using generateMetadata_fr [of m] generateMetadata_constructor [of m] by blast
qed

subsection \<open>Typed-text cycler\<close>

lemma run_numeral:
  "run (numeral k) texts s =
     (case tick texts s of
        Inl e \<Rightarrow> Inl e
      | Inr s' \<Rightarrow> (case run (pred_numeral k) texts s' of Inl e \<Rightarrow> Inl e | Inr ss \<Rightarrow> Inr (s' # ss)))"
  by (simp add: numeral_eq_Suc)

lemma elapsed_numeral:
  "elapsed p (numeral k) texts s =
     (case tick texts s of
        Inl e \<Rightarrow> tick_delay p texts s
      | Inr s' \<Rightarrow> tick_delay p texts s + elapsed p (pred_numeral k) texts s')"
  by (simp add: numeral_eq_Suc)

lemma js_literals:
  "js ''A'' = [65]" "js ''BC'' = [66, 67]" "js ''B'' = [66]" "js '''' = []"
  by (simp_all add: js_def)

lemma ab_run: "run 10 [js ''A'', js ''BC''] initial = Inr ab_cycle"
  by (simp add: run_numeral tick_def targetText_def initial_def js_literals ab_cycle_def)

lemma ab_emitted: "emitted [] ab_cycle = [js ''A'', js '''', js ''B'', js ''BC'', js ''B'', js '''']"
  by (simp add: ab_cycle_def js_literals)

lemma ab_emitted_first: "emitted [] (filter (\<lambda>s. currentIndex s = 0) ab_cycle) = [js ''A'', js '''']"
  by (simp add: ab_cycle_def js_literals)

lemma ab_emitted_second:
  "emitted [] (filter (\<lambda>s. currentIndex s = 1) ab_cycle) = [js ''B'', js ''BC'', js ''B'', js '''']"
  by (simp add: ab_cycle_def js_literals)

lemma ab_last: "last ab_cycle = initial"
  by (simp add: ab_cycle_def initial_def js_literals)

lemma ab_elapsed: "elapsed zero_props 10 [js ''A'', js ''BC''] initial = 0"
  by (simp add: elapsed_numeral tick_def tick_delay_def targetText_def initial_def js_literals zero_props_def)

lemma tick_deleting_nonempty:
  "isDeleting s \<Longrightarrow> currentText s \<noteq> [] \<Longrightarrow>
     tick texts s = Inr (s\<lparr>currentText := butlast (currentText s)\<rparr>)"
  by (simp add: tick_def)

lemma tick_deleting_empty:
  "isDeleting s \<Longrightarrow> currentText s = [] \<Longrightarrow>
     tick texts s = Inr (s\<lparr>isDeleting := False, currentIndex := (currentIndex s + 1) mod length texts\<rparr>)"
  by (simp add: tick_def)

lemma run_2: "run 2 texts s =
     (case tick texts s of
        Inl e \<Rightarrow> Inl e
      | Inr s' \<Rightarrow> (case tick texts s' of Inl e \<Rightarrow> Inl e | Inr s'' \<Rightarrow> Inr [s', s'']))"
  by (simp add: numeral_2_eq_2 split: sum.splits)

lemma tick_deleting_last:
  assumes "isDeleting s" "length (currentText s) = 1"
  shows "run 2 texts s =
     Inr [s\<lparr>currentText := []\<rparr>,
          s\<lparr>currentText := [], isDeleting := False,
            currentIndex := (currentIndex s + 1) mod length texts\<rparr>]"
proof -
  from assms(2) obtain c where c: "currentText s = [c]"
    by (cases "currentText s") auto
  then have 1: "tick texts s = Inr (s\<lparr>currentText := []\<rparr>)"
    using assms(1) by (simp add: tick_def)
  have 2: "tick texts (s\<lparr>currentText := []\<rparr>) =
      Inr (s\<lparr>currentText := [], isDeleting := False,
            currentIndex := (currentIndex s + 1) mod length texts\<rparr>)"
    using assms(1) by (simp add: tick_def)
  show ?thesis by (simp add: run_2 1 2)
qed

text \<open>
  C6. Started on \<open>["A", "BC"]\<close> the cycler runs through the ten states of \<open>ab_cycle\<close>:
  it shows \<open>A\<close> and then the empty string while the index is 0, then \<open>B\<close>, \<open>BC\<close>, \<open>B\<close>
  and the empty string while the index is 1, and the last tick brings the index back to
  0 (the initial state); with all three speeds 0 this takes no waiting time. In general
  a deleting tick on a non-empty substring removes its last character, a deleting tick
  on the empty substring advances the index modulo the length of the sequence and
  returns to typing, and so the tick that empties the substring is followed by the
  tick that advances.
\<close>

theorem cycler_full_cycle:
  "run 10 [js ''A'', js ''BC''] initial = Inr ab_cycle
   \<and> emitted [] (filter (\<lambda>s. currentIndex s = 0) ab_cycle) = [js ''A'', js '''']
   \<and> emitted [] (filter (\<lambda>s. currentIndex s = 1) ab_cycle)
       = [js ''B'', js ''BC'', js ''B'', js '''']
   \<and> emitted [] ab_cycle = [js ''A'', js '''', js ''B'', js ''BC'', js ''B'', js '''']
   \<and> last ab_cycle = initial
   \<and> elapsed zero_props 10 [js ''A'', js ''BC''] initial = 0
   \<and> (isDeleting s \<and> currentText s \<noteq> [] \<longrightarrow>
        tick texts s = Inr (s\<lparr>currentText := butlast (currentText s)\<rparr>))
   \<and> (isDeleting s \<and> currentText s = [] \<longrightarrow>
        tick texts s = Inr (s\<lparr>isDeleting := False,
                                currentIndex := (currentIndex s + 1) mod length texts\<rparr>))
   \<and> (isDeleting s \<and> length (currentText s) = 1 \<longrightarrow>
        run 2 texts s =
          Inr [s\<lparr>currentText := []\<rparr>,
               s\<lparr>currentText := [], isDeleting := False,
                 currentIndex := (currentIndex s + 1) mod length texts\<rparr>])"
  using ab_run ab_emitted ab_emitted_first ab_emitted_second ab_last ab_elapsed
    tick_deleting_nonempty [of s texts] tick_deleting_empty [of s texts]
    tick_deleting_last [of s texts]
  by blast

theorem cycler_full_cycle_witness:
  "tick [js ''A'', js ''BC''] \<lparr>currentIndex = 1, currentText = js ''BC'', isDeleting = True\<rparr>
     = Inr \<lparr>currentIndex = 1, currentText = js ''B'', isDeleting = True\<rparr>
   \<and> tick [js ''A'', js ''BC''] \<lparr>currentIndex = 1, currentText = [], isDeleting = True\<rparr>
     = Inr \<lparr>currentIndex = 0, currentText = [], isDeleting = False\<rparr>
   \<and> run 2 [js ''A'', js ''BC''] \<lparr>currentIndex = 1, currentText = js ''B'', isDeleting = True\<rparr>
     = Inr [\<lparr>currentIndex = 1, currentText = [], isDeleting = True\<rparr>,
            \<lparr>currentIndex = 0, currentText = [], isDeleting = False\<rparr>]"
  using cycler_full_cycle
      [of "\<lparr>currentIndex = 1, currentText = js ''BC'', isDeleting = True\<rparr>" "[js ''A'', js ''BC'']"]
    cycler_full_cycle
      [of "\<lparr>currentIndex = 1, currentText = [], isDeleting = True\<rparr>" "[js ''A'', js ''BC'']"]
    cycler_full_cycle
      [of "\<lparr>currentIndex = 1, currentText = js ''B'', isDeleting = True\<rparr>" "[js ''A'', js ''BC'']"]
  by (simp add: js_literals)


lemma inv_initial: "texts \<noteq> [] \<Longrightarrow> cycler_inv texts initial"
  by (simp add: cycler_inv_def initial_def)

lemma prefix_take_eq: "prefix xs ys \<Longrightarrow> take (length xs) ys = xs"
  by (auto simp: prefix_def)

lemma tick_typing:
  assumes "cycler_inv texts s" "\<not> isDeleting s"
    "length (currentText s) < length (texts ! currentIndex s)"
  shows "tick texts s =
      Inr (s\<lparr>currentText := currentText s @ [texts ! currentIndex s ! length (currentText s)]\<rparr>)"
proof -
  let ?t = "texts ! currentIndex s"
  have i: "currentIndex s < length texts" and p: "prefix (currentText s) ?t"
    using assms(1) by (simp_all add: cycler_inv_def)
  have "take (length (currentText s) + 1) ?t
      = take (length (currentText s)) ?t @ [?t ! length (currentText s)]"
    using assms(3) by (simp add: take_Suc_conv_app_nth)
  also have "take (length (currentText s)) ?t = currentText s"
    using p by (rule prefix_take_eq)
  finally show ?thesis
    using assms(2,3) i by (simp add: tick_def targetText_def)
qed

lemma tick_typed:
  assumes "cycler_inv texts s" "\<not> isDeleting s"
    "\<not> length (currentText s) < length (texts ! currentIndex s)"
  shows "tick texts s = Inr (s\<lparr>isDeleting := True\<rparr>)"
  using assms by (simp add: tick_def targetText_def cycler_inv_def)

lemma tick_cases:
  assumes "cycler_inv texts s"
  shows "tick texts s =
    Inr (if \<not> isDeleting s then
           if length (currentText s) < length (texts ! currentIndex s)
           then s\<lparr>currentText := currentText s @ [texts ! currentIndex s ! length (currentText s)]\<rparr>
           else s\<lparr>isDeleting := True\<rparr>
         else if currentText s \<noteq> [] then s\<lparr>currentText := butlast (currentText s)\<rparr>
         else s\<lparr>isDeleting := False, currentIndex := (currentIndex s + 1) mod length texts\<rparr>)"
  using tick_typing [OF assms] tick_typed [OF assms]
  by (simp add: tick_deleting_nonempty tick_deleting_empty)

lemma inv_typing:
  assumes "cycler_inv texts s" "length (currentText s) < length (texts ! currentIndex s)"
  shows "cycler_inv texts
     (s\<lparr>currentText := currentText s @ [texts ! currentIndex s ! length (currentText s)]\<rparr>)"
proof -
  let ?t = "texts ! currentIndex s"
  have "prefix (currentText s) ?t" using assms(1) by (simp add: cycler_inv_def)
  then have "take (length (currentText s)) ?t = currentText s" by (rule prefix_take_eq)
  then have "currentText s @ [?t ! length (currentText s)] = take (Suc (length (currentText s))) ?t"
    using assms(2) by (simp add: take_Suc_conv_app_nth)
  then have "prefix (currentText s @ [?t ! length (currentText s)]) ?t"
    by (simp only: take_is_prefix)
  then show ?thesis using assms(1) by (simp add: cycler_inv_def)
qed

lemma inv_deleting:
  assumes "cycler_inv texts s"
  shows "cycler_inv texts (s\<lparr>currentText := butlast (currentText s)\<rparr>)"
proof -
  have "prefix (butlast (currentText s)) (currentText s)" by (rule prefixeq_butlast)
  moreover have "prefix (currentText s) (texts ! currentIndex s)"
    using assms by (simp add: cycler_inv_def)
  ultimately have "prefix (butlast (currentText s)) (texts ! currentIndex s)"
    by (rule prefix_order.trans)
  then show ?thesis using assms by (simp add: cycler_inv_def)
qed

lemma inv_advance:
  assumes "cycler_inv texts s" "currentText s = []"
  shows "cycler_inv texts
     (s\<lparr>isDeleting := False, currentIndex := (currentIndex s + 1) mod length texts\<rparr>)"
proof -
  have "0 < length texts" using assms(1) by (auto simp: cycler_inv_def)
  then have "(currentIndex s + 1) mod length texts < length texts" by simp
  then show ?thesis using assms(2) by (simp add: cycler_inv_def)
qed

lemma inv_pause: "cycler_inv texts s \<Longrightarrow> cycler_inv texts (s\<lparr>isDeleting := True\<rparr>)"
  by (simp add: cycler_inv_def)

lemma tick_inv:
  assumes "cycler_inv texts s"
  shows "\<exists>s'. tick texts s = Inr s' \<and> cycler_inv texts s'"
proof (cases "isDeleting s")
  case True
  show ?thesis
  proof (cases "currentText s = []")
    case True
    with \<open>isDeleting s\<close> tick_deleting_empty [of s texts] inv_advance [OF assms]
    show ?thesis by blast
  next
    case False
    with \<open>isDeleting s\<close> tick_deleting_nonempty [of s texts] inv_deleting [OF assms]
    show ?thesis by blast
  qed
next
  case False
  show ?thesis
  proof (cases "length (currentText s) < length (texts ! currentIndex s)")
    case True
    with \<open>\<not> isDeleting s\<close> tick_typing [OF assms] inv_typing [OF assms]
    show ?thesis by blast
  next
    case False
    with \<open>\<not> isDeleting s\<close> tick_typed [OF assms] inv_pause [OF assms]
    show ?thesis by blast
  qed
qed

lemma run_inv:
  "cycler_inv texts s \<Longrightarrow>
     \<exists>ss. run n texts s = Inr ss \<and> length ss = n \<and> (\<forall>x\<in>set ss. cycler_inv texts x)"
proof (induction n arbitrary: s)
  case 0
  then show ?case by simp
next
  case (Suc n)
  from tick_inv [OF Suc.prems] obtain s' where s': "tick texts s = Inr s'" "cycler_inv texts s'"
    by blast
  from Suc.IH [OF s'(2)] obtain ss where
    ss: "run n texts s' = Inr ss" "length ss = n" "\<forall>x\<in>set ss. cycler_inv texts x"
    by blast
  show ?case using s' ss by simp
qed

lemma tick_steps:
  assumes "cycler_inv texts s" "tick texts s = Inr s'"
  shows "(\<not> isDeleting s \<and> length (currentText s) < length (texts ! currentIndex s) \<longrightarrow>
            currentText s' = currentText s @ [texts ! currentIndex s ! length (currentText s)]
            \<and> currentIndex s' = currentIndex s)
         \<and> (isDeleting s \<and> currentText s \<noteq> [] \<longrightarrow>
            currentText s' = butlast (currentText s) \<and> currentIndex s' = currentIndex s)
         \<and> (currentIndex s' \<noteq> currentIndex s \<longrightarrow>
            currentText s = [] \<and> isDeleting s
            \<and> currentIndex s' = (currentIndex s + 1) mod length texts)"
  using tick_cases [OF assms(1)] assms(2)
  by (auto split: if_splits)

text \<open>
  C10. For a non-empty sequence the initial state satisfies the invariant (the index is
  below the length of the sequence and the substring is a prefix of the string at the
  index), and from a state that satisfies it the tick returns a state that satisfies it
  again: typing appends the next character of that string, deleting removes the last
  character, and the index changes only on a deleting tick with an empty substring, to
  the next index modulo the length. Hence every run from the initial state returns,
  without an error, states that satisfy the invariant.
\<close>

theorem cycler_invariant:
  "texts \<noteq> [] \<longrightarrow>
     cycler_inv texts initial
     \<and> (cycler_inv texts s \<longrightarrow>
          (\<exists>s'. tick texts s = Inr s' \<and> cycler_inv texts s'
             \<and> (\<not> isDeleting s \<and> length (currentText s) < length (texts ! currentIndex s) \<longrightarrow>
                  currentText s' = currentText s @ [texts ! currentIndex s ! length (currentText s)]
                  \<and> currentIndex s' = currentIndex s)
             \<and> (isDeleting s \<and> currentText s \<noteq> [] \<longrightarrow>
                  currentText s' = butlast (currentText s) \<and> currentIndex s' = currentIndex s)
             \<and> (currentIndex s' \<noteq> currentIndex s \<longrightarrow>
                  currentText s = [] \<and> isDeleting s
                  \<and> currentIndex s' = (currentIndex s + 1) mod length texts)))
     \<and> (\<exists>ss. run n texts initial = Inr ss \<and> length ss = n
             \<and> (\<forall>x\<in>set ss. cycler_inv texts x))"
proof (intro impI conjI)
  assume t: "texts \<noteq> []"
  then show "cycler_inv texts initial" by (rule inv_initial)
  then show "\<exists>ss. run n texts initial = Inr ss \<and> length ss = n
             \<and> (\<forall>x\<in>set ss. cycler_inv texts x)"
    by (rule run_inv)
next
  assume i: "cycler_inv texts s"
  from tick_inv [OF i] obtain s' where s': "tick texts s = Inr s'" "cycler_inv texts s'"
    by blast
  from tick_steps [OF i s'(1)] s'
  show "\<exists>s'. tick texts s = Inr s' \<and> cycler_inv texts s'
             \<and> (\<not> isDeleting s \<and> length (currentText s) < length (texts ! currentIndex s) \<longrightarrow>
                  currentText s' = currentText s @ [texts ! currentIndex s ! length (currentText s)]
                  \<and> currentIndex s' = currentIndex s)
             \<and> (isDeleting s \<and> currentText s \<noteq> [] \<longrightarrow>
                  currentText s' = butlast (currentText s) \<and> currentIndex s' = currentIndex s)
             \<and> (currentIndex s' \<noteq> currentIndex s \<longrightarrow>
                  currentText s = [] \<and> isDeleting s
                  \<and> currentIndex s' = (currentIndex s + 1) mod length texts)"
    by blast
qed


theorem cycler_invariant_witness:
  "[js ''A'', js ''BC''] \<noteq> []
   \<and> cycler_inv [js ''A'', js ''BC''] initial
   \<and> cycler_inv [js ''A'', js ''BC''] \<lparr>currentIndex = 1, currentText = js ''B'', isDeleting = False\<rparr>
   \<and> tick [js ''A'', js ''BC''] \<lparr>currentIndex = 1, currentText = js ''B'', isDeleting = False\<rparr>
       = Inr \<lparr>currentIndex = 1, currentText = js ''BC'', isDeleting = False\<rparr>
   \<and> cycler_inv [js ''A'', js ''BC''] \<lparr>currentIndex = 1, currentText = js ''BC'', isDeleting = False\<rparr>
   \<and> run 10 [js ''A'', js ''BC''] initial = Inr ab_cycle
   \<and> cycler_inv [js ''A'', js ''BC''] (last ab_cycle)"
proof -
  let ?texts = "[js ''A'', js ''BC'']"
  let ?s = "\<lparr>currentIndex = 1, currentText = js ''B'', isDeleting = False\<rparr>"
  have ne: "?texts \<noteq> []" by simp
  have i: "cycler_inv ?texts ?s"
    by (simp add: cycler_inv_def js_literals)
  have t: "tick ?texts ?s = Inr \<lparr>currentIndex = 1, currentText = js ''BC'', isDeleting = False\<rparr>"
    by (simp add: tick_def targetText_def js_literals)
  have r: "run 10 ?texts initial = Inr ab_cycle" by (rule ab_run)
  have l: "last ab_cycle \<in> set ab_cycle" by (simp add: ab_cycle_def)
  show ?thesis
    using cycler_invariant [of ?texts ?s 10] ne i t r l by auto
qed

text \<open>
  C8 as stated fails. An empty target string is not skipped at once: the first tick, after
  \<open>typingSpeed + pauseTime\<close>, only switches to deleting with the index unchanged, and
  the index advances on the second tick; with the default speeds that takes 2150 ms.
\<close>

theorem empty_target_counterexample:
  "targetText [js '''', js ''A''] (currentIndex initial) = Some []
   \<and> tick [js '''', js ''A''] initial
       = Inr \<lparr>currentIndex = 0, currentText = [], isDeleting = True\<rparr>
   \<and> tick_delay default_props [js '''', js ''A''] initial = 2100
   \<and> run 2 [js '''', js ''A''] initial
       = Inr [\<lparr>currentIndex = 0, currentText = [], isDeleting = True\<rparr>,
              \<lparr>currentIndex = 1, currentText = [], isDeleting = False\<rparr>]
   \<and> elapsed default_props 2 [js '''', js ''A''] initial = 2150
   \<and> elapsed zero_props 2 [js '''', js ''A''] initial = 0"
  by (simp add: run_2 elapsed_numeral tick_def tick_delay_def targetText_def initial_def
      js_literals default_props_def zero_props_def)

lemma elapsed_2:
  "tick texts s = Inr s' \<Longrightarrow> tick texts s' = Inr s'' \<Longrightarrow>
     elapsed p 2 texts s = tick_delay p texts s + tick_delay p texts s'"
  by (simp add: numeral_2_eq_2)

text \<open>
  C8 (as the code has it). When the target string is empty, the cycler shows no
  substring for it and leaves it in two ticks: the typing tick finds nothing to type
  and, after the pause, switches to deleting; the deleting tick advances the index
  modulo the length of the sequence and returns to typing. That takes
  \<open>typingSpeed + pauseTime + deletingSpeed\<close>.
\<close>

theorem empty_target_passes:
  "i < length texts \<and> texts ! i = [] \<longrightarrow>
     run 2 texts \<lparr>currentIndex = i, currentText = [], isDeleting = False\<rparr>
       = Inr [\<lparr>currentIndex = i, currentText = [], isDeleting = True\<rparr>,
              \<lparr>currentIndex = (i + 1) mod length texts, currentText = [], isDeleting = False\<rparr>]
     \<and> emitted []
         [\<lparr>currentIndex = i, currentText = [], isDeleting = True\<rparr>,
          \<lparr>currentIndex = (i + 1) mod length texts, currentText = [], isDeleting = False\<rparr>] = []
     \<and> elapsed p 2 texts \<lparr>currentIndex = i, currentText = [], isDeleting = False\<rparr>
         = typingSpeed p + pauseTime p + deletingSpeed p"
proof (intro impI)
  assume a: "i < length texts \<and> texts ! i = []"
  let ?s = "\<lparr>currentIndex = i, currentText = [], isDeleting = False\<rparr>"
  let ?s1 = "\<lparr>currentIndex = i, currentText = [], isDeleting = True\<rparr>"
  let ?s2 = "\<lparr>currentIndex = (i + 1) mod length texts, currentText = [], isDeleting = False\<rparr>"
  have 1: "tick texts ?s = Inr ?s1" using a by (simp add: tick_def targetText_def)
  have 2: "tick texts ?s1 = Inr ?s2" by (simp add: tick_def)
  have d1: "tick_delay p texts ?s = typingSpeed p + pauseTime p"
    using a by (simp add: tick_delay_def targetText_def)
  have d2: "tick_delay p texts ?s1 = deletingSpeed p" by (simp add: tick_delay_def)
  have r: "run 2 texts ?s = Inr [?s1, ?s2]" by (simp add: run_2 1 2)
  have e: "emitted [] [?s1, ?s2] = []" by simp
  have t: "elapsed p 2 texts ?s = typingSpeed p + pauseTime p + deletingSpeed p"
    by (simp add: elapsed_2 [OF 1 2] d1 d2)
  show "run 2 texts ?s = Inr [?s1, ?s2] \<and> emitted [] [?s1, ?s2] = []
     \<and> elapsed p 2 texts ?s = typingSpeed p + pauseTime p + deletingSpeed p"
    using r e t by blast
qed

theorem empty_target_passes_witness:
  "(0::nat) < length [js '''', js ''A''] \<and> [js '''', js ''A''] ! 0 = []
   \<and> run 2 [js '''', js ''A''] \<lparr>currentIndex = 0, currentText = [], isDeleting = False\<rparr>
       = Inr [\<lparr>currentIndex = 0, currentText = [], isDeleting = True\<rparr>,
              \<lparr>currentIndex = 1, currentText = [], isDeleting = False\<rparr>]
   \<and> elapsed default_props 2 [js '''', js ''A'']
        \<lparr>currentIndex = 0, currentText = [], isDeleting = False\<rparr> = 2150"
proof -
  have a: "(0::nat) < length [js '''', js ''A''] \<and> [js '''', js ''A''] ! 0 = []"
    by (simp add: js_literals)
  show ?thesis
    using empty_target_passes [of 0 "[js '''', js ''A'']" default_props] a
    by (simp add: default_props_def)
qed

subsection \<open>WhatsApp link\<close>

lemma hex_digits_unreserved: "\<forall>u\<in>set (js ''0123456789ABCDEF''). unreserved u"
  by (simp add: js_def unreserved_def)

lemma hex_digit_unreserved: "n < 16 \<Longrightarrow> unreserved (hex_digit n)"
proof -
  assume "n < 16"
  then have "n < length (js ''0123456789ABCDEF'')" by (simp add: js_def)
  then have "hex_digit n \<in> set (js ''0123456789ABCDEF'')"
    unfolding hex_digit_def by (rule nth_mem)
  with hex_digits_unreserved show ?thesis by blast
qed

lemma utf8_octets: "cp < 0x110000 \<Longrightarrow> \<forall>b\<in>set (utf8 cp). b < 256"
  by (auto simp: utf8_def)

lemma percent_units: "b < 256 \<Longrightarrow> \<forall>u\<in>set (percent b). unreserved u \<or> u = 0x25"
proof -
  assume "b < 256"
  then have "b div 16 < 16" "b mod 16 < 16" by simp_all
  then show ?thesis by (simp add: percent_def hex_digit_unreserved)
qed

lemma escape_units: "cp < 0x110000 \<Longrightarrow> \<forall>u\<in>set (escape cp). unreserved u \<or> u = 0x25"
  using utf8_octets [of cp] percent_units by (auto simp: escape_def)

lemma escape_nonempty: "escape cp \<noteq> []"
  by (simp add: escape_def utf8_def percent_def)

lemma unit_code_point: "unat (c :: 16 word) < 0x110000"
proof -
  have "unat c < 2 ^ 16" using unsigned_less [of c, where 'a = nat] by simp
  then show ?thesis by simp
qed

lemma pair_code_point_bound:
  "lead_surrogate hi \<Longrightarrow> trail_surrogate lo \<Longrightarrow> pair_code_point hi lo < 0x110000"
  unfolding lead_surrogate_def trail_surrogate_def pair_code_point_def word_le_nat_alt
  by simp arith

lemma encodeURIComponent_units:
  "encodeURIComponent m = Inr e \<Longrightarrow> \<forall>u\<in>set e. unreserved u \<or> u = 0x25"
proof (induction m arbitrary: e rule: encodeURIComponent.induct)
  case 1
  then show ?case by simp
next
  case (2 c cs)
  show ?case
  proof (cases "unreserved c")
    case True
    with "2.prems" obtain r where r: "encodeURIComponent cs = Inr r" "e = c # r"
      by (auto split: sum.splits)
    with "2.IH"(1) [OF True r(1)] True show ?thesis by simp
  next
    case False
    note nu = False
    show ?thesis
    proof (cases "lead_surrogate c")
      case True
      with nu "2.prems" obtain d ds r where
        d: "cs = d # ds" "trail_surrogate d" "encodeURIComponent ds = Inr r"
           "e = escape (pair_code_point c d) @ r"
        by (auto split: sum.splits list.splits if_splits)
      from "2.IH"(2) [OF nu True d(1) d(2) d(3)]
      have "\<forall>u\<in>set r. unreserved u \<or> u = 0x25" .
      moreover have "\<forall>u\<in>set (escape (pair_code_point c d)). unreserved u \<or> u = 0x25"
        by (rule escape_units [OF pair_code_point_bound [OF True d(2)]])
      ultimately show ?thesis using d(4) by auto
    next
      case False
      with nu "2.prems" obtain r where
        r: "\<not> trail_surrogate c" "encodeURIComponent cs = Inr r" "e = escape (unat c) @ r"
        by (auto split: sum.splits if_splits)
      from "2.IH"(3) [OF nu False r(1) r(2)]
      have "\<forall>u\<in>set r. unreserved u \<or> u = 0x25" .
      moreover have "\<forall>u\<in>set (escape (unat c)). unreserved u \<or> u = 0x25"
        by (rule escape_units [OF unit_code_point])
      ultimately show ?thesis using r(3) by auto
    qed
  qed
qed

lemma encodeURIComponent_nonempty:
  "m \<noteq> [] \<Longrightarrow> encodeURIComponent m = Inr e \<Longrightarrow> e \<noteq> []"
  by (cases m) (auto simp: escape_nonempty split: if_splits sum.splits list.splits)

lemma encodeURIComponent_no_surrogates:
  "\<forall>u\<in>set m. \<not> lead_surrogate u \<and> \<not> trail_surrogate u \<Longrightarrow> \<exists>e. encodeURIComponent m = Inr e"
  by (induction m) auto


lemma no_text_parameter:
  "\<not> sublist (js ''text='') (js ''https://wa.me/'' @ formatWhatsAppNumber phone)"
proof
  assume "sublist (js ''text='') (js ''https://wa.me/'' @ formatWhatsAppNumber phone)"
  then have "set (js ''text='') \<subseteq> set (js ''https://wa.me/'' @ formatWhatsAppNumber phone)"
    by (rule set_mono_sublist)
  moreover have "0x3D \<in> set (js ''text='')" by (simp add: js_def)
  ultimately have "0x3D \<in> set (js ''https://wa.me/'') \<union> set (filter is_digit phone)"
    by (auto simp: formatWhatsAppNumber_def)
  then show False by (auto simp: js_def is_digit_def)
qed

lemma createWhatsAppURL_no_message:
  "message = None \<or> message = Some [] \<Longrightarrow>
     createWhatsAppURL phone message = Inr (js ''https://wa.me/'' @ formatWhatsAppNumber phone)"
  by (auto simp: createWhatsAppURL_def)

lemma createWhatsAppURL_message:
  assumes "m \<noteq> []" "encodeURIComponent m = Inr e"
  shows "createWhatsAppURL phone (Some m)
      = Inr (js ''https://wa.me/'' @ formatWhatsAppNumber phone @ js ''?text='' @ e)"
proof -
  have "e \<noteq> []" using assms by (rule encodeURIComponent_nonempty)
  then show ?thesis using assms by (simp add: createWhatsAppURL_def)
qed

lemma createWhatsAppURL_error:
  assumes "encodeURIComponent m = Inl err"
  shows "createWhatsAppURL phone (Some m) = Inl err"
proof -
  have "m \<noteq> []" using assms by auto
  then show ?thesis using assms by (simp add: createWhatsAppURL_def)
qed

lemma createWhatsAppURL_returns:
  assumes "\<forall>u\<in>set m. \<not> lead_surrogate u \<and> \<not> trail_surrogate u"
  shows "\<exists>url. createWhatsAppURL phone (Some m) = Inr url"
proof -
  from encodeURIComponent_no_surrogates [OF assms]
  obtain e where "encodeURIComponent m = Inr e" by blast
  then show ?thesis by (simp add: createWhatsAppURL_def)
qed

lemma phone_digits: "formatWhatsAppNumber (js ''+34 611 200787'') = js ''34611200787''"
  by (simp add: formatWhatsAppNumber_def js_def is_digit_def)

lemma encode_hi: "encodeURIComponent (js ''Hi!'') = Inr (js ''Hi!'')"
  by (simp add: js_def unreserved_def)

lemma link_hi:
  "createWhatsAppURL (js ''+34 611 200787'') (Some (js ''Hi!''))
     = Inr (js ''https://wa.me/34611200787?text=Hi!'')"
proof -
  have "js ''Hi!'' \<noteq> []" by (simp add: js_def)
  from createWhatsAppURL_message [OF this encode_hi, of "js ''+34 611 200787''"]
  show ?thesis by (simp add: phone_digits) (simp add: js_def)
qed

lemma link_plain:
  "createWhatsAppURL (js ''+34 611 200787'') (Some []) = Inr (js ''https://wa.me/34611200787'')"
  "createWhatsAppURL (js ''+34 611 200787'') None = Inr (js ''https://wa.me/34611200787'')"
  by (simp_all add: createWhatsAppURL_no_message phone_digits) (simp_all add: js_def)

text \<open>
  C5 as stated fails. The link for \<open>+34 611 200787\<close> and \<open>Hi!\<close> is \<open>https://wa.me/34611200787?text=Hi!\<close>:
  the number is a path segment, there is no \<open>phone=\<close> parameter, and
  \<open>encodeURIComponent\<close> leaves \<open>!\<close> as it is, so \<open>text=Hi%21\<close> does not occur. A
  message with an unpaired surrogate makes the builder raise.
\<close>

theorem createWhatsAppURL_counterexample:
  "createWhatsAppURL (js ''+34 611 200787'') (Some (js ''Hi!''))
     = Inr (js ''https://wa.me/34611200787?text=Hi!'')
   \<and> \<not> sublist (js ''phone=34611200787'') (js ''https://wa.me/34611200787?text=Hi!'')
   \<and> \<not> sublist (js ''text=Hi%21'') (js ''https://wa.me/34611200787?text=Hi!'')
   \<and> createWhatsAppURL (js ''+34 611 200787'') (Some [0xD83D]) = Inl URIError"
proof -
  have a: "\<not> sublist (js ''phone=34611200787'') (js ''https://wa.me/34611200787?text=Hi!'')"
    by (simp add: js_def sublist_Cons_right)
  have b: "\<not> sublist (js ''text=Hi%21'') (js ''https://wa.me/34611200787?text=Hi!'')"
    by (simp add: js_def sublist_Cons_right)
  have "encodeURIComponent [0xD83D] = Inl URIError"
    by (simp add: unreserved_def lead_surrogate_def)
  then have c: "createWhatsAppURL (js ''+34 611 200787'') (Some [0xD83D]) = Inl URIError"
    by (rule createWhatsAppURL_error)
  show ?thesis using link_hi a b c by blast
qed

lemma link_part_none:
  "message = None \<or> message = Some [] \<longrightarrow>
        createWhatsAppURL phone message = Inr (js ''https://wa.me/'' @ formatWhatsAppNumber phone)
        \<and> \<not> sublist (js ''text='') (js ''https://wa.me/'' @ formatWhatsAppNumber phone)"
  using createWhatsAppURL_no_message [of message phone] no_text_parameter [of phone] by blast

lemma link_part_some:
  "\<forall>m e. message = Some m \<and> m \<noteq> [] \<and> encodeURIComponent m = Inr e \<longrightarrow>
        createWhatsAppURL phone message
          = Inr (js ''https://wa.me/'' @ formatWhatsAppNumber phone @ js ''?text='' @ e)
        \<and> e \<noteq> [] \<and> (\<forall>u\<in>set e. unreserved u \<or> u = 0x25)"
proof (intro allI impI)
  fix m e
  assume a: "message = Some m \<and> m \<noteq> [] \<and> encodeURIComponent m = Inr e"
  then have 1: "createWhatsAppURL phone message
          = Inr (js ''https://wa.me/'' @ formatWhatsAppNumber phone @ js ''?text='' @ e)"
    using createWhatsAppURL_message [of m e phone] by simp
  from a have 2: "e \<noteq> []" using encodeURIComponent_nonempty [of m e] by simp
  from a have 3: "\<forall>u\<in>set e. unreserved u \<or> u = 0x25"
    using encodeURIComponent_units [of m e] by simp
  from 1 2 3 show "createWhatsAppURL phone message
          = Inr (js ''https://wa.me/'' @ formatWhatsAppNumber phone @ js ''?text='' @ e)
        \<and> e \<noteq> [] \<and> (\<forall>u\<in>set e. unreserved u \<or> u = 0x25)"
    by blast
qed

lemma link_part_error:
  "\<forall>m. message = Some m \<and> encodeURIComponent m = Inl URIError \<longrightarrow>
        createWhatsAppURL phone message = Inl URIError"
  using createWhatsAppURL_error [of _ URIError phone] by blast

lemma link_part_returns:
  "\<forall>m. message = Some m \<and> (\<forall>u\<in>set m. \<not> lead_surrogate u \<and> \<not> trail_surrogate u) \<longrightarrow>
        (\<exists>url. createWhatsAppURL phone message = Inr url)"
  using createWhatsAppURL_returns [of _ phone] by blast

text \<open>
  C5 (as the code has it). The builder keeps exactly the ASCII digits of the phone
  number and returns \<open>https://wa.me/\<close> followed by them. Without a message, or with an
  empty one, nothing is appended and the link has no \<open>text=\<close>. With a non-empty
  message it appends \<open>?text=\<close> and the non-empty \<open>encodeURIComponent\<close> of the message,
  which consists of unreserved characters and \<open>%\<close>; it raises \<open>URIError\<close> exactly when
  the encoding does, and returns a link for every message without surrogate code
  units. For \<open>+34 611 200787\<close> the digits are \<open>34611200787\<close>, and with \<open>Hi!\<close> the link
  is \<open>https://wa.me/34611200787?text=Hi!\<close>.
\<close>

theorem createWhatsAppURL_link:
  "formatWhatsAppNumber phone = filter is_digit phone
   \<and> (message = None \<or> message = Some [] \<longrightarrow>
        createWhatsAppURL phone message = Inr (js ''https://wa.me/'' @ formatWhatsAppNumber phone)
        \<and> \<not> sublist (js ''text='') (js ''https://wa.me/'' @ formatWhatsAppNumber phone))
   \<and> (\<forall>m e. message = Some m \<and> m \<noteq> [] \<and> encodeURIComponent m = Inr e \<longrightarrow>
        createWhatsAppURL phone message
          = Inr (js ''https://wa.me/'' @ formatWhatsAppNumber phone @ js ''?text='' @ e)
        \<and> e \<noteq> [] \<and> (\<forall>u\<in>set e. unreserved u \<or> u = 0x25))
   \<and> (\<forall>m. message = Some m \<and> encodeURIComponent m = Inl URIError \<longrightarrow>
        createWhatsAppURL phone message = Inl URIError)
   \<and> (\<forall>m. message = Some m \<and> (\<forall>u\<in>set m. \<not> lead_surrogate u \<and> \<not> trail_surrogate u) \<longrightarrow>
        (\<exists>url. createWhatsAppURL phone message = Inr url))
   \<and> formatWhatsAppNumber (js ''+34 611 200787'') = js ''34611200787''
   \<and> createWhatsAppURL (js ''+34 611 200787'') (Some (js ''Hi!''))
       = Inr (js ''https://wa.me/34611200787?text=Hi!'')
   \<and> createWhatsAppURL (js ''+34 611 200787'') (Some []) = Inr (js ''https://wa.me/34611200787'')
   \<and> createWhatsAppURL (js ''+34 611 200787'') None = Inr (js ''https://wa.me/34611200787'')"
  by (intro conjI)
    (rule formatWhatsAppNumber_def link_part_none link_part_some link_part_error
      link_part_returns phone_digits link_hi link_plain)+



theorem createWhatsAppURL_link_witness:
  "createWhatsAppURL (js ''+34 611 200787'') None
     = Inr (js ''https://wa.me/'' @ formatWhatsAppNumber (js ''+34 611 200787''))
   \<and> \<not> sublist (js ''text='') (js ''https://wa.me/'' @ formatWhatsAppNumber (js ''+34 611 200787''))
   \<and> js ''a b'' \<noteq> [] \<and> encodeURIComponent (js ''a b'') = Inr (js ''a%20b'')
   \<and> createWhatsAppURL (js ''+34 611 200787'') (Some (js ''a b''))
       = Inr (js ''https://wa.me/'' @ formatWhatsAppNumber (js ''+34 611 200787'')
              @ js ''?text='' @ js ''a%20b'')
   \<and> encodeURIComponent [0xDC00] = Inl URIError
   \<and> createWhatsAppURL (js ''+34 611 200787'') (Some [0xDC00]) = Inl URIError"
proof -
  let ?P = "js ''+34 611 200787''"
  have ne: "js ''a b'' \<noteq> []" by (simp add: js_def)
  have enc: "encodeURIComponent (js ''a b'') = Inr (js ''a%20b'')"
    by (simp add: js_def unreserved_def lead_surrogate_def trail_surrogate_def escape_def
        utf8_def percent_def hex_digit_def)
  have err: "encodeURIComponent [0xDC00] = Inl URIError"
    by (simp add: unreserved_def lead_surrogate_def trail_surrogate_def)
  have w1: "createWhatsAppURL ?P None = Inr (js ''https://wa.me/'' @ formatWhatsAppNumber ?P)
      \<and> \<not> sublist (js ''text='') (js ''https://wa.me/'' @ formatWhatsAppNumber ?P)"
    using createWhatsAppURL_link [of ?P None] by blast
  have w2: "createWhatsAppURL ?P (Some (js ''a b''))
       = Inr (js ''https://wa.me/'' @ formatWhatsAppNumber ?P @ js ''?text='' @ js ''a%20b'')"
    using createWhatsAppURL_link [of ?P "Some (js ''a b'')"] ne enc by blast
  have w4: "createWhatsAppURL ?P (Some [0xDC00]) = Inl URIError"
    using createWhatsAppURL_link [of ?P "Some [0xDC00]"] err by blast
  show ?thesis using w1 w2 w4 ne enc err by blast
qed

end
